theory Spec2Isabelle
  imports Complex_Main
begin

section \<open>Circle Survival: the simulation core of script.js\<close>

text \<open>
  The embedding follows the full variant of the game script (time warp, splitter and fuse
  circles). JavaScript numbers are read as real numbers, so rounding, NaN and infinities
  are outside the model. The module-level variables of the script form one record that
  every operation takes and returns. The host environment is an input of each operation:
  the clock (\<open>performance.now()\<close> and the frame timestamp), the size of the play area
  (\<open>getBoundingClientRect()\<close>) and every result of \<open>Math.random()\<close>, one named value per
  call site, read only where the script makes the call.
\<close>

subsection \<open>Data model\<close>

datatype circle_type = Normal | Armored | Drifter | Splitter | Fuse

text \<open>
  The click listener attached to a circle's DOM element: the one installed by
  \<open>spawnCircle\<close> or the one installed by \<open>spawnSplitterChildren\<close>.
\<close>

datatype listener = SpawnListener | ChildListener

text \<open>
  A circle object. \<open>element\<close> is the handle of its own DOM node; every circle is created
  together with a fresh node, so the handle also stands for the identity of the object
  (the script compares circles with \<open>===\<close> and \<open>indexOf\<close>). \<open>fuseTimeLeft\<close> is \<open>null\<close>
  (\<open>None\<close>) unless the circle is a fuse.
\<close>

record circle =
  element :: nat
  listener :: listener
  x :: real
  y :: real
  radius :: real
  growth :: real
  clicks :: int
  driftX :: real
  driftY :: real
  type :: circle_type
  fuseTimeLeft :: "real option"

text \<open>
  The module state. \<open>spawnTimeoutId\<close> holds the delay of the pending spawn timeout
  (\<open>None\<close> when it was cleared or never set), \<open>animationFrameId\<close> whether a frame
  callback is requested, \<open>nextElement\<close> the next unused DOM handle.
\<close>

record game =
  circles :: "circle list"
  spawnTimeoutId :: "real option"
  animationFrameId :: bool
  gameRunning :: bool
  paused :: bool
  currentLevel :: int
  timeLeft :: real
  baseSpawnInterval :: real
  spawnInterval :: real
  spawnAcceleration :: real
  lastUpdateTime :: real
  score :: int
  warpActive :: bool
  nextWarpAt :: real
  warpEndAt :: real
  resumeAfterHelp :: bool
  nextElement :: nat

definition timeWarp_interval :: real where "timeWarp_interval = 8"
definition timeWarp_duration :: real where "timeWarp_duration = 3"
definition timeWarp_factor :: real where "timeWarp_factor = 0.5"

definition BASE_SPAWN_INTERVAL :: real where "BASE_SPAWN_INTERVAL = 2000"
definition MIN_SPAWN_INTERVAL :: real where "MIN_SPAWN_INTERVAL = 300"

text \<open>The values of the module variables when the script has been loaded.\<close>

definition initial :: game where
  "initial = \<lparr> circles = [], spawnTimeoutId = None, animationFrameId = False,
     gameRunning = False, paused = False, currentLevel = 1, timeLeft = 30,
     baseSpawnInterval = 2000, spawnInterval = 2000, spawnAcceleration = 0.9,
     lastUpdateTime = 0, score = 0, warpActive = False, nextWarpAt = timeWarp_interval,
     warpEndAt = 0, resumeAfterHelp = False, nextElement = 0 \<rparr>"

subsection \<open>Removing circles and the fuse shockwave\<close>

text \<open>
  \<open>removeCircle\<close>: \<open>indexOf\<close> finds the first position of the circle and \<open>splice\<close>
  deletes that one entry; an absent circle leaves the array as it is.
\<close>

fun removeCircle :: "circle list \<Rightarrow> circle \<Rightarrow> circle list" where
  "removeCircle [] c = []"
| "removeCircle (d # ds) c = (if element d = element c then ds else d # removeCircle ds c)"

text \<open>
  \<open>handleFusePop\<close>: every circle but the fuse itself has its radius multiplied by
  0.8 (popped by the player) or 1.2 (exploded), then raised to at least 5.
\<close>

definition handleFusePop :: "circle list \<Rightarrow> circle \<Rightarrow> bool \<Rightarrow> circle list" where
  "handleFusePop cs fuseCircle isGood =
     (let factor = (if isGood then 0.8 else 1.2)
      in map (\<lambda>c. if element c = element fuseCircle then c
                    else c\<lparr>radius := max (radius c * factor) 5\<rparr>) cs)"

subsection \<open>The frame update\<close>

text \<open>Growth and drift of one circle over \<open>dt\<close> seconds (the first lines of the loop body).\<close>

definition advance :: "real \<Rightarrow> circle \<Rightarrow> circle" where
  "advance dt c = c\<lparr>radius := radius c + growth c * dt,
                    x := x c + driftX c * dt,
                    y := y c + driftY c * dt\<rparr>"

text \<open>The bounce off the walls of a play area of the given width and height.\<close>

definition bounceX :: "real \<Rightarrow> circle \<Rightarrow> circle" where
  "bounceX width c =
     (if x c - radius c < 0 then c\<lparr>x := radius c, driftX := \<bar>driftX c\<bar>\<rparr>
      else if x c + radius c > width then c\<lparr>x := width - radius c, driftX := - \<bar>driftX c\<bar>\<rparr>
      else c)"

definition bounceY :: "real \<Rightarrow> circle \<Rightarrow> circle" where
  "bounceY height c =
     (if y c - radius c < 0 then c\<lparr>y := radius c, driftY := \<bar>driftY c\<bar>\<rparr>
      else if y c + radius c > height then c\<lparr>y := height - radius c, driftY := - \<bar>driftY c\<bar>\<rparr>
      else c)"

definition bounce :: "real \<Rightarrow> real \<Rightarrow> circle \<Rightarrow> circle" where
  "bounce width height c =
     (if driftX c \<noteq> 0 \<or> driftY c \<noteq> 0 then bounceY height (bounceX width c) else c)"

text \<open>
  The countdown of a fuse circle: the new circle, and whether the fuse has run out.
  Circles of another type, and a \<open>null\<close> countdown, are left alone.
\<close>

definition fuseCountdown :: "real \<Rightarrow> circle \<Rightarrow> circle \<times> bool" where
  "fuseCountdown dt c =
     (case fuseTimeLeft c of
        None \<Rightarrow> (c, False)
      | Some t \<Rightarrow> if type c = Fuse then (c\<lparr>fuseTimeLeft := Some (t - dt)\<rparr>, t - dt \<le> 0)
                  else (c, False))"

text \<open>
  How the loop over the circles ends: \<open>gameOver()\<close> was called at a circle (with the
  array as it was then), or every index was visited.
\<close>

datatype loop_exit = GameOverExit "circle list" | LoopDone "circle list"

text \<open>
  \<open>for (const circle of circles)\<close>. The array iterator keeps an index into the live
  array and stops when the index reaches the current length; the body writes to the
  circle at that index. An exploding fuse runs the shockwave over the array and is
  spliced out of it while the iteration goes on.
\<close>

function update_loop :: "real \<Rightarrow> real \<Rightarrow> real \<Rightarrow> nat \<Rightarrow> circle list \<Rightarrow> loop_exit" where
  "update_loop dt width height i cs =
     (if i < length cs then
        (let (c1, exploded) = fuseCountdown dt (advance dt (cs ! i)) in
         if exploded then
           update_loop dt width height (i + 1)
             (removeCircle (handleFusePop (cs[i := c1]) c1 False) c1)
         else
           (let c2 = bounce width height c1 in
            if radius c2 \<ge> min width height / 2 then GameOverExit (cs[i := c2])
            else update_loop dt width height (i + 1) (cs[i := c2])))
      else LoopDone cs)"
  by pat_completeness auto
termination
proof (relation "measure (\<lambda>(dt, width, height, i, cs). length cs - i)")
  show "wf (measure (\<lambda>(dt, width, height, i, cs). length cs - i))" by simp
next
  fix dt width height :: real and i :: nat and cs :: "circle list" and c1 :: circle
  assume "i < length cs"
  have shorter: "length (removeCircle ds c1) \<le> length ds" for ds
    by (induction ds) auto
  have "length (removeCircle (handleFusePop (cs[i := c1]) c1 False) c1) \<le> length cs"
    using shorter [of "handleFusePop (cs[i := c1]) c1 False"]
    by (simp add: handleFusePop_def)
  with \<open>i < length cs\<close>
  show "((dt, width, height, i + 1, removeCircle (handleFusePop (cs[i := c1]) c1 False) c1),
         (dt, width, height, i, cs)) \<in> measure (\<lambda>(dt, width, height, i, cs). length cs - i)"
    by simp
next
  fix dt width height :: real and i :: nat and cs :: "circle list" and c2 :: circle
  assume "i < length cs"
  then show "((dt, width, height, i + 1, cs[i := c2]), (dt, width, height, i, cs))
         \<in> measure (\<lambda>(dt, width, height, i, cs). length cs - i)"
    by simp
qed

declare update_loop.simps [simp del]


subsection \<open>Rounds: reset, level completion, game over\<close>

text \<open>\<open>spawnNext\<close> sets the spawn timeout with the current \<open>spawnInterval\<close> as its delay.\<close>

definition spawnNext :: "game \<Rightarrow> game" where
  "spawnNext st = st\<lparr>spawnTimeoutId := Some (spawnInterval st)\<rparr>"

definition resetGame :: "game \<Rightarrow> game" where
  "resetGame st =
     (let base = BASE_SPAWN_INTERVAL * (0.9 powi (currentLevel st - 1))
      in st\<lparr>circles := [], timeLeft := 30,
            baseSpawnInterval := base, spawnInterval := base, spawnAcceleration := 0.9,
            warpActive := False, nextWarpAt := timeWarp_interval, warpEndAt := 0\<rparr>)"

text \<open>
  \<open>levelComplete\<close>, in the branch where the level overlay exists (the start button's
  handler uses the overlay without a test, so the page has one): the next level waits
  for the start button.
\<close>

definition levelComplete :: "game \<Rightarrow> game" where
  "levelComplete st =
     (let level = currentLevel st + 1;
          base = BASE_SPAWN_INTERVAL * (0.9 powi (level - 1))
      in st\<lparr>spawnTimeoutId := None, animationFrameId := False, circles := [],
            currentLevel := level, timeLeft := 30, score := 0,
            baseSpawnInterval := base, spawnInterval := base, spawnAcceleration := 0.9,
            warpActive := False, nextWarpAt := timeWarp_interval, warpEndAt := 0\<rparr>)"

definition gameOver :: "game \<Rightarrow> game" where
  "gameOver st = st\<lparr>gameRunning := False, spawnTimeoutId := None,
                    animationFrameId := False, circles := []\<rparr>"

text \<open>The time-warp bookkeeping of \<open>update\<close>, for the elapsed time of the round.\<close>

definition timeWarp :: "real \<Rightarrow> game \<Rightarrow> game" where
  "timeWarp elapsed st =
     (if currentLevel st \<ge> 6 then
        (if \<not> warpActive st \<and> elapsed \<ge> nextWarpAt st then
           st\<lparr>warpActive := True, warpEndAt := nextWarpAt st + timeWarp_duration,
              spawnInterval := baseSpawnInterval st * timeWarp_factor\<rparr>
         else if warpActive st \<and> elapsed \<ge> warpEndAt st then
           st\<lparr>warpActive := False, spawnInterval := baseSpawnInterval st,
              nextWarpAt := nextWarpAt st + timeWarp_interval\<rparr>
         else st)
      else st)"

text \<open>
  \<open>update(timestamp)\<close>, the frame callback, for a play area of the given size.
\<close>

definition update :: "real \<Rightarrow> real \<Rightarrow> real \<Rightarrow> game \<Rightarrow> game" where
  "update timestamp width height st =
     (if \<not> gameRunning st then st
      else if paused st then st\<lparr>animationFrameId := True\<rparr>
      else
        (let dt = (timestamp - lastUpdateTime st) / 1000;
             st1 = st\<lparr>lastUpdateTime := timestamp, timeLeft := timeLeft st - dt\<rparr>
         in if timeLeft st1 \<le> 0 then levelComplete st1
            else
              (let elapsed = 30 - timeLeft st1;
                   st2 = timeWarp elapsed st1
               in case update_loop dt width height 0 (circles st2) of
                    GameOverExit cs \<Rightarrow> gameOver (st2\<lparr>circles := cs\<rparr>)
                  | LoopDone cs \<Rightarrow> st2\<lparr>circles := cs, animationFrameId := True\<rparr>)))"

subsection \<open>Spawning\<close>

text \<open>The results of \<open>Math.random()\<close> in \<open>spawnCircle\<close>, one per call site, each in [0, 1).\<close>

record spawn_rolls =
  xRoll :: real
  yRoll :: real
  fuseRoll :: real
  splitterRoll :: real
  armoredRoll :: real
  drifterRoll :: real
  angleRoll :: real

definition armoredMod :: "int \<Rightarrow> spawn_rolls \<Rightarrow> circle \<Rightarrow> circle" where
  "armoredMod level r c =
     (if level \<ge> 2 \<and> armoredRoll r < 0.2 then c\<lparr>clicks := 2, type := Armored\<rparr> else c)"

definition drifterMod :: "int \<Rightarrow> spawn_rolls \<Rightarrow> circle \<Rightarrow> circle" where
  "drifterMod level r c =
     (if level \<ge> 3 \<and> drifterRoll r < 0.5 then
        (let angle = angleRoll r * pi * 2; speed = 40
         in c\<lparr>driftX := cos angle * speed, driftY := sin angle * speed, type := Drifter\<rparr>)
      else c)"

definition spawnCircle :: "spawn_rolls \<Rightarrow> real \<Rightarrow> real \<Rightarrow> game \<Rightarrow> game" where
  "spawnCircle r width height st =
     (let initialRadius = 15;
          circle = \<lparr>element = nextElement st, listener = SpawnListener,
                    x = xRoll r * (width - initialRadius * 2) + initialRadius,
                    y = yRoll r * (height - initialRadius * 2) + initialRadius,
                    radius = initialRadius, growth = 20, clicks = 1,
                    driftX = 0, driftY = 0, type = Normal, fuseTimeLeft = None\<rparr>;
          special = (if currentLevel st \<ge> 5 \<and> fuseRoll r < 0.25 then Some Fuse
                     else if currentLevel st \<ge> 4 \<and> splitterRoll r < 0.3 then Some Splitter
                     else None);
          circle' = (if special = Some Fuse then circle\<lparr>type := Fuse, fuseTimeLeft := Some 3.5\<rparr>
                     else if special = Some Splitter then circle\<lparr>type := Splitter\<rparr>
                     else drifterMod (currentLevel st) r (armoredMod (currentLevel st) r circle))
      in st\<lparr>circles := circles st @ [circle'], nextElement := nextElement st + 1\<rparr>)"

text \<open>
  The callback of the spawn timeout: spawn, accelerate the base interval down to the
  minimum, apply the time warp, set the next timeout.
\<close>

definition spawnTimeout :: "spawn_rolls \<Rightarrow> real \<Rightarrow> real \<Rightarrow> game \<Rightarrow> game" where
  "spawnTimeout r width height st =
     (let st1 = spawnCircle r width height st;
          base = max (baseSpawnInterval st1 * spawnAcceleration st1) MIN_SPAWN_INTERVAL;
          st2 = st1\<lparr>baseSpawnInterval := base,
                    spawnInterval := (if warpActive st1 then base * timeWarp_factor else base)\<rparr>
      in spawnNext st2)"

subsection \<open>Clicks on circles\<close>

text \<open>The results of \<open>Math.random()\<close> for one child of a splitter.\<close>

record child_rolls =
  childAngleRoll :: real
  childDriftRoll :: real
  childDriftAngleRoll :: real

definition spawnChild :: "circle \<Rightarrow> child_rolls \<Rightarrow> game \<Rightarrow> game" where
  "spawnChild parent r st =
     (let angle = childAngleRoll r * pi * 2;
          child = \<lparr>element = nextElement st, listener = ChildListener,
                   x = x parent + cos angle * radius parent,
                   y = y parent + sin angle * radius parent,
                   radius = max 10 (radius parent / 2),
                   growth = growth parent * 1.2, clicks = 1,
                   driftX = 0, driftY = 0, type = Normal, fuseTimeLeft = None\<rparr>;
          child' = (if childDriftRoll r < 0.5 then
                      (let driftAngle = childDriftAngleRoll r * pi * 2; speed = 30
                       in child\<lparr>driftX := cos driftAngle * speed,
                                driftY := sin driftAngle * speed, type := Drifter\<rparr>)
                    else child)
      in st\<lparr>circles := circles st @ [child'], nextElement := nextElement st + 1\<rparr>)"

text \<open>\<open>spawnSplitterChildren\<close>: the loop body runs for \<open>i = 0\<close> and \<open>i = 1\<close>.\<close>

definition spawnSplitterChildren :: "circle \<Rightarrow> child_rolls \<Rightarrow> child_rolls \<Rightarrow> game \<Rightarrow> game" where
  "spawnSplitterChildren parent r0 r1 st = spawnChild parent r1 (spawnChild parent r0 st)"

text \<open>The click listener that \<open>spawnCircle\<close> installs, for the circle it was installed on.\<close>

definition circleClicked :: "circle \<Rightarrow> child_rolls \<Rightarrow> child_rolls \<Rightarrow> game \<Rightarrow> game" where
  "circleClicked c r0 r1 st =
     (if \<not> gameRunning st \<or> paused st then st
      else if clicks c > 1 then
        st\<lparr>circles := map (\<lambda>d. if element d = element c then d\<lparr>clicks := clicks d - 1\<rparr> else d)
                         (circles st)\<rparr>
      else
        (let st1 = (if type c = Splitter then spawnSplitterChildren c r0 r1 st
                    else if type c = Fuse then st\<lparr>circles := handleFusePop (circles st) c True\<rparr>
                    else st)
         in st1\<lparr>circles := removeCircle (circles st1) c, score := score st1 + 1\<rparr>))"

text \<open>The click listener that \<open>spawnSplitterChildren\<close> installs on a child.\<close>

definition childClicked :: "circle \<Rightarrow> game \<Rightarrow> game" where
  "childClicked child st =
     (if \<not> gameRunning st \<or> paused st then st
      else st\<lparr>circles := removeCircle (circles st) child, score := score st + 1\<rparr>)"

text \<open>
  A click on the DOM element with the given handle. Elements leave the page together
  with their circles, so a handle that is not in the array receives no click.
\<close>

definition click :: "nat \<Rightarrow> child_rolls \<Rightarrow> child_rolls \<Rightarrow> game \<Rightarrow> game" where
  "click e r0 r1 st =
     (case find (\<lambda>c. element c = e) (circles st) of
        None \<Rightarrow> st
      | Some c \<Rightarrow> (case listener c of
                     SpawnListener \<Rightarrow> circleClicked c r0 r1 st
                   | ChildListener \<Rightarrow> childClicked c st))"

subsection \<open>Commands\<close>

text \<open>\<open>startLevel\<close>, at clock reading \<open>now\<close>.\<close>

definition startLevel :: "real \<Rightarrow> game \<Rightarrow> game" where
  "startLevel now st =
     (let st1 = (resetGame st)\<lparr>gameRunning := True, paused := False, score := 0,
                               lastUpdateTime := now\<rparr>
      in (spawnNext st1)\<lparr>animationFrameId := True\<rparr>)"

definition restartLevel :: "real \<Rightarrow> game \<Rightarrow> game" where
  "restartLevel now st =
     (let st1 = (resetGame (st\<lparr>spawnTimeoutId := None, animationFrameId := False,
                                paused := False, score := 0\<rparr>))
                \<lparr>lastUpdateTime := now, gameRunning := True\<rparr>
      in (spawnNext st1)\<lparr>animationFrameId := True\<rparr>)"

text \<open>The click handler of the pause/resume button.\<close>

definition resumeBtnClick :: "real \<Rightarrow> game \<Rightarrow> game" where
  "resumeBtnClick now st =
     (if \<not> gameRunning st then st
      else
        (let st1 = st\<lparr>paused := \<not> paused st\<rparr>
         in if paused st1 then st1\<lparr>spawnTimeoutId := None, animationFrameId := False\<rparr>
            else (spawnNext (st1\<lparr>lastUpdateTime := now\<rparr>))\<lparr>animationFrameId := True\<rparr>))"

definition restartBtnClick :: "real \<Rightarrow> game \<Rightarrow> game" where
  "restartBtnClick now st = (if \<not> gameRunning st then st else restartLevel now st)"

definition resetProgressBtnClick :: "game \<Rightarrow> game" where
  "resetProgressBtnClick st =
     (resetGame (st\<lparr>gameRunning := False, paused := False,
                    spawnTimeoutId := None, animationFrameId := False\<rparr>))
     \<lparr>currentLevel := 1, score := 0\<rparr>"

text \<open>The debug buttons \<open>L1\<close> to \<open>L6\<close>.\<close>

definition debugLevelClick :: "int \<Rightarrow> real \<Rightarrow> game \<Rightarrow> game" where
  "debugLevelClick level now st =
     startLevel now
       (resetGame (st\<lparr>currentLevel := level, gameRunning := False, paused := False,
                       spawnTimeoutId := None, animationFrameId := False\<rparr>))"

definition openHelp :: "game \<Rightarrow> game" where
  "openHelp st =
     (if gameRunning st \<and> \<not> paused st then
        st\<lparr>resumeAfterHelp := True, paused := True,
           spawnTimeoutId := None, animationFrameId := False\<rparr>
      else st\<lparr>resumeAfterHelp := False\<rparr>)"

definition closeHelp :: "real \<Rightarrow> game \<Rightarrow> game" where
  "closeHelp now st =
     (let st1 = (if resumeAfterHelp st \<and> gameRunning st \<and> paused st then
                   (spawnNext (st\<lparr>paused := False, lastUpdateTime := now\<rparr>))
                   \<lparr>animationFrameId := True\<rparr>
                 else st)
      in st1\<lparr>resumeAfterHelp := False\<rparr>)"

subsection \<open>Runs of the game\<close>

text \<open>
  What can happen to the game: a button is clicked, a circle is clicked, the spawn
  timeout expires, a requested animation frame arrives. A cleared timeout does not
  fire and a cancelled frame does not arrive. Debug buttons exist for levels 1 to 6.
\<close>

datatype event =
    StartBtn real
  | ResumeBtn real
  | RestartBtn real
  | ResetProgressBtn
  | DebugBtn int real
  | HelpBtn
  | CloseHelpBtn real
  | CircleClick nat child_rolls child_rolls
  | SpawnTimer spawn_rolls real real
  | Frame real real real

fun step :: "event \<Rightarrow> game \<Rightarrow> game" where
  "step (StartBtn now) st = startLevel now st"
| "step (ResumeBtn now) st = resumeBtnClick now st"
| "step (RestartBtn now) st = restartBtnClick now st"
| "step ResetProgressBtn st = resetProgressBtnClick st"
| "step (DebugBtn level now) st =
     (if 1 \<le> level \<and> level \<le> 6 then debugLevelClick level now st else st)"
| "step HelpBtn st = openHelp st"
| "step (CloseHelpBtn now) st = closeHelp now st"
| "step (CircleClick e r0 r1) st = click e r0 r1 st"
| "step (SpawnTimer r width height) st =
     (if spawnTimeoutId st = None then st else spawnTimeout r width height st)"
| "step (Frame timestamp width height) st =
     (if animationFrameId st then update timestamp width height st else st)"

fun run :: "event list \<Rightarrow> game \<Rightarrow> game" where
  "run [] st = st"
| "run (e # es) st = run es (step e st)"

subsection \<open>Auxiliary notions and example runs\<close>

text \<open>The fuse of the circle runs out within the next \<open>dt\<close> seconds.\<close>

definition explodes :: "real \<Rightarrow> circle \<Rightarrow> bool" where
  "explodes dt c =
     (case fuseTimeLeft c of None \<Rightarrow> False | Some t \<Rightarrow> type c = Fuse \<and> t - dt \<le> 0)"


text \<open>
  What the loop body does to a circle that neither explodes nor ends the round: growth
  and drift, the fuse countdown, the bounce.
\<close>

definition moved :: "real \<Rightarrow> real \<Rightarrow> real \<Rightarrow> circle \<Rightarrow> circle" where
  "moved dt w h c = bounce w h (fst (fuseCountdown dt (advance dt c)))"

text \<open>
  Random results that spawn a plain circle at any level (every check fails), and the
  same with a successful fuse check.
\<close>

definition rollsN :: spawn_rolls where
  "rollsN = \<lparr>xRoll = 0.5, yRoll = 0.5, fuseRoll = 0.9, splitterRoll = 0.9,
              armoredRoll = 0.9, drifterRoll = 0.9, angleRoll = 0\<rparr>"

definition rollsF :: spawn_rolls where
  "rollsF = rollsN\<lparr>fuseRoll := 0.1\<rparr>"

text \<open>
  Level 5 in a play area of 180 by 180: a plain circle and a fuse are spawned, a frame
  arrives after 3 s and another 0.5 s later, when the fuse runs out.
\<close>

definition late_shock_run :: "event list" where
  "late_shock_run = [DebugBtn 5 0, SpawnTimer rollsN 180 180, SpawnTimer rollsF 180 180,
                     Frame 3000 180 180, Frame 3500 180 180]"

text \<open>The same in a play area of 400 by 400, with the fuse spawned first.\<close>

definition skip_run :: "event list" where
  "skip_run = [DebugBtn 5 0, SpawnTimer rollsF 400 400, SpawnTimer rollsN 400 400,
               Frame 3000 400 400, Frame 3500 400 400]"

text \<open>
  Level 1 is started when the clock reads 1000 ms, a circle is spawned, and the first
  frame carries the timestamp 996 ms.
\<close>

definition backward_run :: "event list" where
  "backward_run = [StartBtn 1000, SpawnTimer rollsN 400 400, Frame 996 400 400]"

text \<open>A round at level 1 with one circle, in a play area of 32 by 32 and of 400 by 400.\<close>

definition tiny_round :: game where
  "tiny_round = run [StartBtn 0, SpawnTimer rollsN 32 32] initial"

definition wide_round :: game where
  "wide_round = run [StartBtn 1000, SpawnTimer rollsN 400 400] initial"


text \<open>Level 6, just started.\<close>

definition warp_round :: game where
  "warp_round = run [DebugBtn 6 0] initial"

text \<open>
  Level 6 in a play area of 1000 by 1000: ten spawns (the tenth 7.7 s into the round,
  going by the intervals), a frame at 8 s, which opens the time warp, and one more spawn.
\<close>

definition warp_run :: "event list" where
  "warp_run =
     (let spawn = SpawnTimer rollsN 1000 1000
      in [DebugBtn 6 0, spawn, spawn, spawn, spawn, spawn, spawn, spawn, spawn, spawn, spawn,
          Frame 8000 1000 1000, spawn])"

text \<open>Random results with a successful splitter check, and a level-4 round with a splitter.\<close>

definition rollsS :: spawn_rolls where
  "rollsS = rollsN\<lparr>splitterRoll := 0.1\<rparr>"


text \<open>Random results with a successful armored and drifter check.\<close>

definition rollsAD :: spawn_rolls where
  "rollsAD = rollsN\<lparr>armoredRoll := 0.1, drifterRoll := 0.1\<rparr>"

text \<open>Random results for a child that stays in place, and for one that drifts.\<close>

definition stay :: child_rolls where
  "stay = \<lparr>childAngleRoll = 0, childDriftRoll = 0.9, childDriftAngleRoll = 0\<rparr>"

definition drift :: child_rolls where
  "drift = \<lparr>childAngleRoll = 0, childDriftRoll = 0.1, childDriftAngleRoll = 0\<rparr>"

text \<open>No frame of the run carries a timestamp before the clock reference of its state.\<close>

fun forward :: "event list \<Rightarrow> game \<Rightarrow> bool" where
  "forward [] st = True"
| "forward (Frame timestamp width height # es) st =
     (lastUpdateTime st \<le> timestamp \<and> forward es (step (Frame timestamp width height) st))"
| "forward (e # es) st = forward es (step e st)"

text \<open>The invariant of the circles: radius at least 5, growth rate not negative.\<close>

definition sound :: "circle \<Rightarrow> bool" where
  "sound c = (5 \<le> radius c \<and> 0 \<le> growth c)"

definition sound_game :: "game \<Rightarrow> bool" where
  "sound_game st = (\<forall>c\<in>set (circles st). sound c)"

text \<open>
  The handles of the circles are distinct and below the next unused handle.
\<close>

definition fresh :: "game \<Rightarrow> bool" where
  "fresh st = (distinct (map element (circles st))
               \<and> (\<forall>n\<in>set (map element (circles st)). n < nextElement st))"

text \<open>
  Level 5: a plain circle and five fuses are spawned, the player pops the fuses one by
  one, which shrinks the plain circle to the floor of 5, then pauses when the clock reads
  2000 ms and resumes when it reads 3000 ms.
\<close>

definition shrink_run :: "event list" where
  "shrink_run =
     (let fuse = SpawnTimer rollsF 400 400
      in [DebugBtn 5 0, SpawnTimer rollsN 400 400, fuse, fuse, fuse, fuse, fuse,
          CircleClick 1 stay stay, CircleClick 2 stay stay, CircleClick 3 stay stay,
          CircleClick 4 stay stay, CircleClick 5 stay stay,
          ResumeBtn 2000, ResumeBtn 3000])"

section \<open>Properties\<close>

subsection \<open>Facts about the loop and its parts\<close>





lemma fuseCountdown_snd: "snd (fuseCountdown dt (advance dt c)) = explodes dt c"
  by (simp add: fuseCountdown_def advance_def explodes_def split: option.splits)

lemma radius_fuseCountdown: "radius (fst (fuseCountdown dt c)) = radius c"
  by (simp add: fuseCountdown_def split: option.splits)

lemma radius_bounce: "radius (bounce w h c) = radius c"
  by (simp add: bounce_def bounceX_def bounceY_def)

lemma radius_advance: "radius (advance dt c) = radius c + growth c * dt"
  by (simp add: advance_def)

lemma circles_timeWarp: "circles (timeWarp e st) = circles st"
  by (simp add: timeWarp_def)

lemma gameRunning_timeWarp: "gameRunning (timeWarp e st) = gameRunning st"
  by (simp add: timeWarp_def)

lemma timeLeft_timeWarp: "timeLeft (timeWarp e st) = timeLeft st"
  by (simp add: timeWarp_def)

text \<open>A frame that is applied: the game runs, is not paused, and the timer does not expire.\<close>

lemma update_applied:
  assumes "gameRunning st" and "\<not> paused st"
    and "0 < timeLeft st - (timestamp - lastUpdateTime st) / 1000"
  shows "update timestamp w h st =
     (let dt = (timestamp - lastUpdateTime st) / 1000;
          st2 = timeWarp (30 - (timeLeft st - dt))
                  (st\<lparr>lastUpdateTime := timestamp, timeLeft := timeLeft st - dt\<rparr>)
      in case update_loop dt w h 0 (circles st) of
           GameOverExit cs \<Rightarrow> gameOver (st2\<lparr>circles := cs\<rparr>)
         | LoopDone cs \<Rightarrow> st2\<lparr>circles := cs, animationFrameId := True\<rparr>)"
  using assms by (simp add: update_def Let_def circles_timeWarp)

lemma loop_calm:
  "(\<forall>j. i \<le> j \<and> j < length cs \<longrightarrow> \<not> explodes dt (cs ! j)) \<Longrightarrow>
   (\<exists>cs'. update_loop dt w h i cs = GameOverExit cs') \<longleftrightarrow>
   (\<exists>j. i \<le> j \<and> j < length cs \<and> min w h / 2 \<le> radius (cs ! j) + growth (cs ! j) * dt)"
proof (induction dt w h i cs rule: update_loop.induct)
  case (1 dt w h i cs)
  show ?case
  proof (cases "i < length cs")
    case False
    then show ?thesis by (simp add: update_loop.simps)
  next
    case True
    obtain c1 ex where p: "fuseCountdown dt (advance dt (cs ! i)) = (c1, ex)"
      by (cases "fuseCountdown dt (advance dt (cs ! i))")
    have nex: "\<not> ex"
      using fuseCountdown_snd [of dt "cs ! i"] p "1.prems" True by auto
    have r1: "radius c1 = radius (cs ! i) + growth (cs ! i) * dt"
      using radius_fuseCountdown [of dt "advance dt (cs ! i)"] p by (simp add: radius_advance)
    define c2 where "c2 = bounce w h c1"
    have r2: "radius c2 = radius (cs ! i) + growth (cs ! i) * dt"
      by (simp add: c2_def radius_bounce r1)
    show ?thesis
    proof (cases "min w h / 2 \<le> radius c2")
      case breach: True
      have "update_loop dt w h i cs = GameOverExit (cs[i := c2])"
        using True p nex breach by (subst update_loop.simps) (simp add: c2_def)
      moreover have "\<exists>j. i \<le> j \<and> j < length cs \<and> min w h / 2 \<le> radius (cs ! j) + growth (cs ! j) * dt"
        using True breach r2 by auto
      ultimately show ?thesis by simp
    next
      case nobreach: False
      have eq: "update_loop dt w h i cs = update_loop dt w h (i + 1) (cs[i := c2])"
        using True p nex nobreach by (subst update_loop.simps) (simp add: c2_def)
      have pre: "\<forall>j. i + 1 \<le> j \<and> j < length (cs[i := c2]) \<longrightarrow> \<not> explodes dt (cs[i := c2] ! j)"
        using "1.prems" by simp
      have IH: "(\<exists>cs'. update_loop dt w h (i + 1) (cs[i := c2]) = GameOverExit cs') \<longleftrightarrow>
        (\<exists>j. i + 1 \<le> j \<and> j < length (cs[i := c2]) \<and>
             min w h / 2 \<le> radius (cs[i := c2] ! j) + growth (cs[i := c2] ! j) * dt)"
        using "1.IH"(2) [OF True p [symmetric] refl nex c2_def nobreach pre] .
      have "(\<exists>j. i + 1 \<le> j \<and> j < length (cs[i := c2]) \<and>
             min w h / 2 \<le> radius (cs[i := c2] ! j) + growth (cs[i := c2] ! j) * dt) \<longleftrightarrow>
            (\<exists>j. i \<le> j \<and> j < length cs \<and> min w h / 2 \<le> radius (cs ! j) + growth (cs ! j) * dt)"
        (is "?L \<longleftrightarrow> ?R")
      proof
        assume ?L
        then obtain j where "i + 1 \<le> j" "j < length cs"
          "min w h / 2 \<le> radius (cs[i := c2] ! j) + growth (cs[i := c2] ! j) * dt" by auto
        then show ?R by (intro exI [of _ j]) auto
      next
        assume ?R
        then obtain j where j: "i \<le> j" "j < length cs"
          "min w h / 2 \<le> radius (cs ! j) + growth (cs ! j) * dt" by auto
        with nobreach r2 have "j \<noteq> i" by auto
        with j show ?L by (intro exI [of _ j]) auto
      qed
      with eq IH show ?thesis by simp
    qed
  qed
qed

lemma loop_quiet:
  "(\<forall>j. i \<le> j \<and> j < length cs \<longrightarrow>
      \<not> explodes dt (cs ! j) \<and> radius (cs ! j) + growth (cs ! j) * dt < min w h / 2) \<Longrightarrow>
   update_loop dt w h i cs = LoopDone (take i cs @ map (moved dt w h) (drop i cs))"
proof (induction "length cs - i" arbitrary: i cs)
  case 0
  then show ?case by (simp add: update_loop.simps)
next
  case (Suc n)
  then have i: "i < length cs" by simp
  obtain c1 ex where p: "fuseCountdown dt (advance dt (cs ! i)) = (c1, ex)"
    by (cases "fuseCountdown dt (advance dt (cs ! i))")
  have nex: "\<not> ex"
    using fuseCountdown_snd [of dt "cs ! i"] p Suc.prems i by auto
  have m: "moved dt w h (cs ! i) = bounce w h c1"
    by (simp add: moved_def p)
  have "radius (moved dt w h (cs ! i)) = radius (cs ! i) + growth (cs ! i) * dt"
    using radius_fuseCountdown [of dt "advance dt (cs ! i)"]
    by (simp add: moved_def radius_bounce radius_advance)
  then have small: "\<not> min w h / 2 \<le> radius (bounce w h c1)"
    using Suc.prems i m by (simp add: not_le)
  have eq: "update_loop dt w h i cs = update_loop dt w h (i + 1) (cs[i := moved dt w h (cs ! i)])"
    using i p nex small by (subst update_loop.simps) (simp add: m Let_def)
  let ?cs = "cs[i := moved dt w h (cs ! i)]"
  have "update_loop dt w h (i + 1) ?cs = LoopDone (take (i + 1) ?cs @ map (moved dt w h) (drop (i + 1) ?cs))"
  proof (rule Suc.hyps(1))
    show "n = length ?cs - (i + 1)" using Suc.hyps(2) by simp
    show "\<forall>j. i + 1 \<le> j \<and> j < length ?cs \<longrightarrow>
        \<not> explodes dt (?cs ! j) \<and> radius (?cs ! j) + growth (?cs ! j) * dt < min w h / 2"
      using Suc.prems by simp
  qed
  moreover have "take (i + 1) ?cs @ map (moved dt w h) (drop (i + 1) ?cs) =
                 take i cs @ map (moved dt w h) (drop i cs)"
    using i by (simp add: take_Suc_conv_app_nth Cons_nth_drop_Suc [symmetric])
  ultimately show ?case using eq by simp
qed

lemma moved_still:
  assumes "\<not> explodes 0 c" and "bounce w h c = c"
  shows "moved 0 w h c = c"
proof -
  have "advance 0 c = c"
    by (simp add: advance_def)
  moreover have "fst (fuseCountdown 0 c) = c"
    by (cases c) (simp add: fuseCountdown_def split: option.splits)
  ultimately show ?thesis
    using assms(2) by (simp add: moved_def)
qed

lemma timeWarp_clock:
  "warpActive (timeWarp e (st\<lparr>lastUpdateTime := a, timeLeft := b\<rparr>)) = warpActive (timeWarp e st)"
  "warpEndAt (timeWarp e (st\<lparr>lastUpdateTime := a, timeLeft := b\<rparr>)) = warpEndAt (timeWarp e st)"
  "nextWarpAt (timeWarp e (st\<lparr>lastUpdateTime := a, timeLeft := b\<rparr>)) = nextWarpAt (timeWarp e st)"
  "spawnInterval (timeWarp e (st\<lparr>lastUpdateTime := a, timeLeft := b\<rparr>)) = spawnInterval (timeWarp e st)"
  "baseSpawnInterval (timeWarp e st) = baseSpawnInterval st"
  by (simp_all add: timeWarp_def)

lemma update_warp:
  assumes "gameRunning st" and "\<not> paused st"
    and "0 < timeLeft st - (timestamp - lastUpdateTime st) / 1000"
  shows "warpActive (update timestamp w h st) =
           warpActive (timeWarp (30 - (timeLeft st - (timestamp - lastUpdateTime st) / 1000)) st)"
    and "warpEndAt (update timestamp w h st) =
           warpEndAt (timeWarp (30 - (timeLeft st - (timestamp - lastUpdateTime st) / 1000)) st)"
    and "nextWarpAt (update timestamp w h st) =
           nextWarpAt (timeWarp (30 - (timeLeft st - (timestamp - lastUpdateTime st) / 1000)) st)"
    and "spawnInterval (update timestamp w h st) =
           spawnInterval (timeWarp (30 - (timeLeft st - (timestamp - lastUpdateTime st) / 1000)) st)"
    and "baseSpawnInterval (update timestamp w h st) = baseSpawnInterval st"
  using assms
  by (simp_all add: update_applied Let_def gameOver_def timeWarp_clock split: loop_exit.splits)

lemma find_element:
  "find (\<lambda>c. element c = e) cs = Some p \<Longrightarrow> element p = e \<and> p \<in> set cs"
  by (induction cs) (auto split: if_splits)


lemma drift_speed: "(cos a * k)\<^sup>2 + (sin a * k)\<^sup>2 = k\<^sup>2" for a k :: real
proof -
  have "(cos a * k)\<^sup>2 + (sin a * k)\<^sup>2 = ((sin a)\<^sup>2 + (cos a)\<^sup>2) * k\<^sup>2"
    by (simp only: power_mult_distrib distrib_right add.commute)
  then show ?thesis by simp
qed

lemma set_removeCircle: "set (removeCircle cs c) \<subseteq> set cs"
  by (induction cs) auto

lemma sound_handleFusePop:
  "\<forall>c\<in>set cs. sound c \<Longrightarrow> \<forall>c\<in>set (handleFusePop cs f g). sound c"
  by (auto simp: handleFusePop_def sound_def Let_def)

lemma sound_advance: "0 \<le> dt \<Longrightarrow> sound c \<Longrightarrow> sound (advance dt c)"
  by (simp add: sound_def advance_def add_increasing2)

lemma sound_fuseCountdown: "sound c \<Longrightarrow> sound (fst (fuseCountdown dt c))"
  by (simp add: sound_def fuseCountdown_def split: option.splits)

lemma sound_moved_parts:
  "0 \<le> dt \<Longrightarrow> sound c \<Longrightarrow> sound (fst (fuseCountdown dt (advance dt c)))"
  "sound c \<Longrightarrow> sound (bounce w h c)"
  by (simp_all add: sound_advance sound_fuseCountdown)
    (simp add: sound_def bounce_def bounceX_def bounceY_def)

lemma sound_update_loop:
  "0 \<le> dt \<Longrightarrow> \<forall>c\<in>set cs. sound c \<Longrightarrow> update_loop dt w h i cs = LoopDone cs' \<Longrightarrow>
   \<forall>c\<in>set cs'. sound c"
proof (induction dt w h i cs rule: update_loop.induct)
  case (1 dt w h i cs)
  show ?case
  proof (cases "i < length cs")
    case False
    with "1.prems" show ?thesis by (simp add: update_loop.simps)
  next
    case True
    obtain c1 ex where p: "fuseCountdown dt (advance dt (cs ! i)) = (c1, ex)"
      by (cases "fuseCountdown dt (advance dt (cs ! i))")
    have "sound (cs ! i)" using True "1.prems"(2) by simp
    then have s1: "sound c1"
      using sound_moved_parts(1) [of dt "cs ! i"] "1.prems"(1) p by simp
    have upd: "\<forall>c\<in>set (cs[i := d]). sound c" if "sound d" for d
      using that "1.prems"(2) set_update_subset_insert [of cs i d] by auto
    show ?thesis
    proof (cases ex)
      case True
      let ?cs = "removeCircle (handleFusePop (cs[i := c1]) c1 False) c1"
      have eq: "update_loop dt w h i cs = update_loop dt w h (i + 1) ?cs"
        using \<open>i < length cs\<close> p True by (subst update_loop.simps) simp
      have "\<forall>c\<in>set ?cs. sound c"
        using sound_handleFusePop [OF upd [OF s1]] set_removeCircle by blast
      then show ?thesis
        using "1.IH"(1) [OF \<open>i < length cs\<close> p [symmetric] refl True "1.prems"(1)] eq "1.prems"(3)
        by simp
    next
      case False
      define c2 where "c2 = bounce w h c1"
      have s2: "sound c2" using s1 by (simp add: c2_def sound_moved_parts(2))
      have nb: "\<not> min w h / 2 \<le> radius c2"
        using \<open>i < length cs\<close> p False "1.prems"(3)
        by (subst (asm) update_loop.simps) (auto simp: c2_def Let_def split: if_splits)
      have eq: "update_loop dt w h i cs = update_loop dt w h (i + 1) (cs[i := c2])"
        using \<open>i < length cs\<close> p False nb by (subst update_loop.simps) (simp add: c2_def)
      show ?thesis
        using "1.IH"(2) [OF \<open>i < length cs\<close> p [symmetric] refl False c2_def nb "1.prems"(1)
            upd [OF s2]] eq "1.prems"(3)
        by simp
    qed
  qed
qed

lemma sound_update:
  assumes "sound_game st" and "lastUpdateTime st \<le> timestamp"
  shows "sound_game (update timestamp w h st)"
proof -
  have dt: "0 \<le> (timestamp - lastUpdateTime st) / 1000"
    using assms(2) by simp
  have "sound_game (st2\<lparr>circles := cs, animationFrameId := True\<rparr>)"
    if "update_loop ((timestamp - lastUpdateTime st) / 1000) w h 0 (circles st) = LoopDone cs"
    for cs and st2 :: game
    using sound_update_loop [OF dt _ that] assms(1) by (simp add: sound_game_def)
  then show ?thesis
    using assms(1)
    by (auto simp: update_def Let_def levelComplete_def gameOver_def sound_game_def
        circles_timeWarp split: loop_exit.splits)
qed

lemma sound_spawnTimeout: "sound_game st \<Longrightarrow> sound_game (spawnTimeout r w h st)"
  by (auto simp: sound_game_def sound_def spawnTimeout_def spawnCircle_def spawnNext_def
      armoredMod_def drifterMod_def Let_def)

lemma sound_spawnChild:
  "sound p \<Longrightarrow> sound_game st \<Longrightarrow> sound_game (spawnChild p r st)"
  by (auto simp: sound_game_def sound_def spawnChild_def Let_def)

lemma sound_click: 
  assumes "sound_game st"
  shows "sound_game (click e r0 r1 st)"
proof (cases "find (\<lambda>c. element c = e) (circles st)")
  case None
  with assms show ?thesis by (simp add: click_def)
next
  case (Some p)
  then have p: "sound p"
    using find_element [OF Some] assms by (simp add: sound_game_def)
  have rem: "sound_game (s\<lparr>circles := removeCircle (circles s) p, score := n\<rparr>)"
    if "sound_game s" for s n
    using that set_removeCircle [of "circles s" p] by (auto simp: sound_game_def)
  have kids: "sound_game (spawnSplitterChildren p r0 r1 st)"
    using assms p by (simp add: spawnSplitterChildren_def sound_spawnChild)
  have pop: "sound_game (st\<lparr>circles := handleFusePop (circles st) p True\<rparr>)"
    using assms sound_handleFusePop [of "circles st" p True] by (simp add: sound_game_def)
  have dec: "sound_game (st\<lparr>circles := map (\<lambda>d. if element d = element p
                 then d\<lparr>clicks := clicks d - 1\<rparr> else d) (circles st)\<rparr>)"
    using assms by (auto simp: sound_game_def sound_def)
  have "sound_game (circleClicked p r0 r1 st)"
    using assms rem kids pop dec by (simp add: circleClicked_def Let_def)
  moreover have "sound_game (childClicked p st)"
    using assms rem by (simp add: childClicked_def)
  ultimately show ?thesis
    using Some by (simp add: click_def split: listener.splits)
qed

lemma sound_resetGame: "sound_game (resetGame st)"
  by (simp add: sound_game_def resetGame_def Let_def)

lemma sound_step:
  assumes "sound_game st" and "forward [e] st"
  shows "sound_game (step e st)"
proof (cases e)
  case (Frame timestamp w h)
  with assms sound_update show ?thesis by simp
next
  case (SpawnTimer r w h)
  with assms sound_spawnTimeout show ?thesis by simp
next
  case (CircleClick n r0 r1)
  with assms sound_click show ?thesis by simp
qed (use assms in \<open>auto simp: sound_game_def startLevel_def restartBtnClick_def restartLevel_def
      resumeBtnClick_def resetProgressBtnClick_def debugLevelClick_def openHelp_def
      closeHelp_def resetGame_def spawnNext_def Let_def\<close>)

lemma forward_Cons: "forward (e # es) st \<longleftrightarrow> forward [e] st \<and> forward es (step e st)"
  by (cases e) simp_all

lemma sound_run: "sound_game st \<Longrightarrow> forward es st \<Longrightarrow> sound_game (run es st)"
proof (induction es arbitrary: st)
  case Nil
  then show ?case by simp
next
  case (Cons e es)
  from Cons.prems(2) have "forward [e] st" and "forward es (step e st)"
    using forward_Cons by blast+
  with Cons.IH Cons.prems(1) sound_step show ?case by simp
qed

lemma element_removeCircle:
  "map element (removeCircle cs c) = remove1 (element c) (map element cs)"
  by (induction cs) auto

lemma element_handleFusePop: "map element (handleFusePop cs f g) = map element cs"
  by (simp add: handleFusePop_def Let_def)

lemma element_parts:
  "element (advance dt c) = element c"
  "element (fst (fuseCountdown dt c)) = element c"
  "element (bounce w h c) = element c"
  by (simp_all add: advance_def fuseCountdown_def bounce_def bounceX_def bounceY_def
      split: option.splits)

lemma element_update:
  assumes "element d = element (cs ! i)"
  shows "map element (cs[i := d]) = map element cs"
proof (cases "i < length cs")
  case True
  with assms show ?thesis by (simp add: map_update list_update_same_conv)
next
  case False
  then have "cs[i := d] = cs"
    by (intro list_update_beyond) simp
  then show ?thesis by simp
qed

lemma fresh_update_loop:
  "update_loop dt w h i cs = LoopDone cs' \<Longrightarrow> distinct (map element cs) \<Longrightarrow>
   distinct (map element cs') \<and> set (map element cs') \<subseteq> set (map element cs)"
proof (induction dt w h i cs rule: update_loop.induct)
  case (1 dt w h i cs)
  show ?case
  proof (cases "i < length cs")
    case False
    with "1.prems" show ?thesis by (simp add: update_loop.simps)
  next
    case True
    obtain c1 ex where p: "fuseCountdown dt (advance dt (cs ! i)) = (c1, ex)"
      by (cases "fuseCountdown dt (advance dt (cs ! i))")
    have e1: "element c1 = element (cs ! i)"
      using element_parts(2) [of dt "advance dt (cs ! i)"] p by (simp add: element_parts(1))
    show ?thesis
    proof (cases ex)
      case True
      let ?cs = "removeCircle (handleFusePop (cs[i := c1]) c1 False) c1"
      have eq: "update_loop dt w h i cs = update_loop dt w h (i + 1) ?cs"
        using \<open>i < length cs\<close> p True by (subst update_loop.simps) simp
      have m: "map element ?cs = remove1 (element c1) (map element cs)"
        by (simp add: element_removeCircle element_handleFusePop element_update e1)
      then have d: "distinct (map element ?cs)" and s: "set (map element ?cs) \<subseteq> set (map element cs)"
        using "1.prems"(2) set_remove1_subset [of "element c1" "map element cs"] by auto
      have "distinct (map element cs') \<and> set (map element cs') \<subseteq> set (map element ?cs)"
        using "1.IH"(1) [OF \<open>i < length cs\<close> p [symmetric] refl True _ d] eq "1.prems"(1)
        by simp
      with s show ?thesis by blast
    next
      case False
      define c2 where "c2 = bounce w h c1"
      have e2: "element c2 = element (cs ! i)"
        by (simp add: c2_def element_parts(3) e1)
      have nb: "\<not> min w h / 2 \<le> radius c2"
        using \<open>i < length cs\<close> p False "1.prems"(1)
        by (subst (asm) update_loop.simps) (auto simp: c2_def Let_def split: if_splits)
      have eq: "update_loop dt w h i cs = update_loop dt w h (i + 1) (cs[i := c2])"
        using \<open>i < length cs\<close> p False nb by (subst update_loop.simps) (simp add: c2_def)
      have m: "map element (cs[i := c2]) = map element cs"
        using e2 by (rule element_update)
      show ?thesis
        using "1.IH"(2) [OF \<open>i < length cs\<close> p [symmetric] refl False c2_def nb] eq
          "1.prems" m
        by simp
    qed
  qed
qed

lemma fresh_update: 
  assumes "fresh st"
  shows "fresh (update timestamp w h st)"
proof -
  have "fresh (st2\<lparr>circles := cs, animationFrameId := True\<rparr>)"
    if "update_loop dt w h 0 (circles st) = LoopDone cs" and "nextElement st2 = nextElement st"
    for cs dt and st2 :: game
    using fresh_update_loop [OF that(1)] assms that(2) unfolding fresh_def by auto
  moreover have "nextElement (timeWarp e s) = nextElement s" for e s
    by (simp add: timeWarp_def)
  ultimately show ?thesis
    using assms
    by (auto simp: update_def Let_def levelComplete_def gameOver_def fresh_def
        circles_timeWarp split: loop_exit.splits)
qed

lemma fresh_spawnCircle: "fresh st \<Longrightarrow> fresh (spawnCircle r w h st)"
  by (auto simp: fresh_def spawnCircle_def armoredMod_def drifterMod_def Let_def)

lemma fresh_spawnTimeout: "fresh st \<Longrightarrow> fresh (spawnTimeout r w h st)"
  using fresh_spawnCircle [of st r w h]
  by (simp add: fresh_def spawnTimeout_def spawnNext_def Let_def)

lemma fresh_spawnChild: "fresh st \<Longrightarrow> fresh (spawnChild p r st)"
  by (auto simp: fresh_def spawnChild_def Let_def)

lemma fresh_removeCircle:
  "fresh s \<Longrightarrow> fresh (s\<lparr>circles := removeCircle (circles s) p, score := n\<rparr>)"
  using set_remove1_subset [of "element p" "map element (circles s)"]
  unfolding fresh_def by (auto simp: element_removeCircle)

lemma fresh_click:
  assumes "fresh st"
  shows "fresh (click e r0 r1 st)"
proof (cases "find (\<lambda>c. element c = e) (circles st)")
  case None
  with assms show ?thesis by (simp add: click_def)
next
  case (Some p)
  have kids: "fresh (spawnSplitterChildren p r0 r1 st)"
    using assms by (simp add: spawnSplitterChildren_def fresh_spawnChild)
  have pop: "fresh (st\<lparr>circles := handleFusePop (circles st) p True\<rparr>)"
    using assms by (simp add: fresh_def element_handleFusePop)
  have dec: "fresh (st\<lparr>circles := map (\<lambda>d. if element d = element p
                 then d\<lparr>clicks := clicks d - 1\<rparr> else d) (circles st)\<rparr>)"
  proof -
    define ds where "ds = map (\<lambda>d. if element d = element p
                 then d\<lparr>clicks := clicks d - 1\<rparr> else d) (circles st)"
    have "map element ds = map element (circles st)"
      unfolding ds_def by (induction "circles st") auto
    then have "fresh (st\<lparr>circles := ds\<rparr>)"
      using assms by (simp add: fresh_def)
    then show ?thesis by (simp add: ds_def)
  qed
  have "fresh (circleClicked p r0 r1 st)"
    using assms fresh_removeCircle kids pop dec by (simp add: circleClicked_def Let_def)
  moreover have "fresh (childClicked p st)"
    using assms fresh_removeCircle by (simp add: childClicked_def)
  ultimately show ?thesis
    using Some by (simp add: click_def split: listener.splits)
qed

lemma fresh_step: "fresh st \<Longrightarrow> fresh (step e st)"
proof (cases e)
  case (Frame timestamp w h)
  assume "fresh st"
  with Frame fresh_update show ?thesis by simp
next
  case (SpawnTimer r w h)
  assume "fresh st"
  with SpawnTimer fresh_spawnTimeout show ?thesis by simp
next
  case (CircleClick n r0 r1)
  assume "fresh st"
  with CircleClick fresh_click show ?thesis by simp
qed (auto simp: fresh_def startLevel_def restartBtnClick_def restartLevel_def
      resumeBtnClick_def resetProgressBtnClick_def debugLevelClick_def openHelp_def
      closeHelp_def resetGame_def spawnNext_def Let_def)

lemma distinct_elements_run: "distinct (map element (circles (run es initial)))"
proof -
  have "fresh st \<Longrightarrow> fresh (run es st)" for st
    by (induction es arbitrary: st) (simp_all add: fresh_step)
  moreover have "fresh initial"
    by (simp add: fresh_def initial_def)
  ultimately show ?thesis
    by (simp add: fresh_def)
qed











lemmas example_defs = rollsN_def rollsF_def rollsS_def rollsAD_def stay_def drift_def initial_def

lemmas op_defs = debugLevelClick_def startLevel_def resetGame_def spawnNext_def spawnTimeout_def
  spawnCircle_def armoredMod_def drifterMod_def update_def timeWarp_def levelComplete_def
  gameOver_def advance_def fuseCountdown_def bounce_def bounceX_def bounceY_def
  handleFusePop_def BASE_SPAWN_INTERVAL_def MIN_SPAWN_INTERVAL_def timeWarp_interval_def
  timeWarp_duration_def timeWarp_factor_def power_int_def power_divide Let_def update_loop.simps

lemmas click_defs = click_def circleClicked_def childClicked_def spawnSplitterChildren_def
  spawnChild_def resumeBtnClick_def

subsection \<open>C5: a fuse that runs out\<close>



subsection \<open>C1: when a frame ends the round\<close>

text \<open>
  Claim C1, as amended. In a frame that is applied (the game runs, is not paused, and the
  round timer does not expire) and in which no fuse runs out, the round goes to game over
  if and only if some live circle's radius, grown by this frame, is at least half the
  smaller side of the current play area. The check is made inside the loop, for each
  circle right after its own update, and the first circle found over the threshold ends
  the round.
\<close>

theorem game_over_iff_breach:
  fixes timestamp w h :: real and st :: game
  defines "dt \<equiv> (timestamp - lastUpdateTime st) / 1000"
  assumes "gameRunning st" and "\<not> paused st" and "0 < timeLeft st - dt"
    and "\<forall>c\<in>set (circles st). \<not> explodes dt c"
  shows "\<not> gameRunning (update timestamp w h st) \<longleftrightarrow>
         (\<exists>c\<in>set (circles st). min w h / 2 \<le> radius c + growth c * dt)"
proof -
  have calm: "\<forall>j. 0 \<le> j \<and> j < length (circles st) \<longrightarrow> \<not> explodes dt (circles st ! j)"
    using assms(5) by simp
  have loop: "(\<exists>cs'. update_loop dt w h 0 (circles st) = GameOverExit cs') \<longleftrightarrow>
      (\<exists>j. 0 \<le> j \<and> j < length (circles st)
           \<and> min w h / 2 \<le> radius (circles st ! j) + growth (circles st ! j) * dt)"
    using loop_calm [OF calm] .
  have "(\<exists>j. 0 \<le> j \<and> j < length (circles st)
           \<and> min w h / 2 \<le> radius (circles st ! j) + growth (circles st ! j) * dt) \<longleftrightarrow>
        (\<exists>c\<in>set (circles st). min w h / 2 \<le> radius c + growth c * dt)"
    (is "?L \<longleftrightarrow> ?R")
  proof
    assume ?L
    then obtain j where "j < length (circles st)"
      "min w h / 2 \<le> radius (circles st ! j) + growth (circles st ! j) * dt" by blast
    then show ?R using nth_mem by blast
  next
    assume ?R
    then obtain c where "c \<in> set (circles st)" "min w h / 2 \<le> radius c + growth c * dt"
      by blast
    then show ?L by (metis in_set_conv_nth le0)
  qed
  with loop have exit:
    "(\<exists>cs'. update_loop dt w h 0 (circles st) = GameOverExit cs') \<longleftrightarrow>
      (\<exists>c\<in>set (circles st). min w h / 2 \<le> radius c + growth c * dt)"
    by simp
  have "\<not> gameRunning (update timestamp w h st) \<longleftrightarrow>
      (\<exists>cs'. update_loop dt w h 0 (circles st) = GameOverExit cs')"
    using assms(2-4) unfolding dt_def
    by (simp add: update_applied Let_def gameOver_def gameRunning_timeWarp split: loop_exit.splits)
  with exit show ?thesis by simp
qed

text \<open>
  The theorem at a round with one circle of radius 15 in a play area of 32 by 32: after
  0.1 s its radius is 17, over the threshold 16, and the round is over.
\<close>

theorem game_over_iff_breach_witness:
  "gameRunning tiny_round \<and> \<not> paused tiny_round
   \<and> 0 < timeLeft tiny_round - (100 - lastUpdateTime tiny_round) / 1000
   \<and> map (explodes ((100 - lastUpdateTime tiny_round) / 1000)) (circles tiny_round) = [False]
   \<and> map radius (circles tiny_round) = [15]
   \<and> \<not> gameRunning (update 100 32 32 tiny_round)"
  using game_over_iff_breach [where st = tiny_round and timestamp = 100 and w = 32 and h = 32]
  by (simp add: tiny_round_def explodes_def example_defs op_defs)

text \<open>
  The claim as stated fails when a fuse runs out after a circle was checked: in
  \<open>late_shock_run\<close> the plain circle passes its check with radius 85, under the
  threshold 90, the shockwave of the fuse then raises it to 102, and the frame ends with
  the round still running and that circle alive.
\<close>

theorem late_shock_counterexample:
  "gameRunning (run late_shock_run initial)
   \<and> map radius (circles (run late_shock_run initial)) = [102]
   \<and> min 180 180 / 2 \<le> (102 :: real)"
  by (simp add: late_shock_run_def example_defs op_defs)

subsection \<open>C3: circles visited by one frame\<close>

text \<open>
  Claim C3 asks that a frame updates every circle exactly once, also when a circle is
  removed during the iteration. In \<open>skip_run\<close> the fuse at index 0 and a plain circle at
  index 1 both have radius 75 before the last frame of 0.5 s. The fuse runs out and is
  spliced out of the array under the running iterator, so the plain circle moves to
  index 0 and is never visited: after the frame its radius is 90, the 75 * 1.2 of the
  shockwave, without the growth of 20 * 0.5 that a visit adds.
\<close>

theorem fuse_removal_skips_next:
  "map radius (circles (run (butlast skip_run) initial)) = [75, 75]
   \<and> map radius (circles (run skip_run initial)) = [90]"
  by (simp add: skip_run_def example_defs op_defs)

subsection \<open>C9: frames with a delta-time of zero or below\<close>

text \<open>
  Claim C9, as amended. The frame update has no clamp and no skip: a frame that is
  applied (the game runs, is not paused, the timer does not expire) subtracts the
  delta-time as computed from the round timer, whatever its sign, and, unless a fuse runs
  out or a circle reaches the lethal radius, gives every circle the growth and drift of
  that delta-time. A delta-time of zero therefore leaves the timer and every radius as
  they are, and every position too when no circle is pushed back by a wall.
\<close>

theorem frame_applies_dt:
  fixes timestamp w h :: real and st :: game
  defines "dt \<equiv> (timestamp - lastUpdateTime st) / 1000"
  assumes "gameRunning st" and "\<not> paused st" and "0 < timeLeft st - dt"
  shows "timeLeft (update timestamp w h st) = timeLeft st - dt
     \<and> ((\<forall>c\<in>set (circles st). \<not> explodes dt c \<and> radius c + growth c * dt < min w h / 2) \<longrightarrow>
          circles (update timestamp w h st) = map (moved dt w h) (circles st))
     \<and> (dt = 0 \<and> (\<forall>c\<in>set (circles st).
            \<not> explodes 0 c \<and> radius c < min w h / 2 \<and> bounce w h c = c) \<longrightarrow>
          circles (update timestamp w h st) = circles st)"
proof -
  have timer: "timeLeft (update timestamp w h st) = timeLeft st - dt"
    using assms(2-4) unfolding dt_def
    by (simp add: update_applied Let_def gameOver_def timeLeft_timeWarp split: loop_exit.splits)
  have quiet: "circles (update timestamp w h st) = map (moved dt w h) (circles st)"
    if "\<forall>c\<in>set (circles st). \<not> explodes dt c \<and> radius c + growth c * dt < min w h / 2"
  proof -
    have "update_loop dt w h 0 (circles st) =
          LoopDone (take 0 (circles st) @ map (moved dt w h) (drop 0 (circles st)))"
      using that by (intro loop_quiet) simp
    then show ?thesis
      using assms(2-4) unfolding dt_def by (simp add: update_applied Let_def)
  qed
  have still: "circles (update timestamp w h st) = circles st"
    if "dt = 0" and "\<forall>c\<in>set (circles st).
            \<not> explodes 0 c \<and> radius c < min w h / 2 \<and> bounce w h c = c"
  proof -
    have "map (moved dt w h) (circles st) = circles st"
      using that by (simp add: moved_still map_idI)
    then show ?thesis using quiet that by simp
  qed
  show ?thesis using timer quiet still by blast
qed


text \<open>
  The theorem at a round with one circle in a play area of 400 by 400, for a frame whose
  timestamp equals the clock reference.
\<close>

theorem frame_applies_dt_witness:
  "gameRunning wide_round \<and> \<not> paused wide_round
   \<and> (1000 - lastUpdateTime wide_round) / 1000 = 0
   \<and> 0 < timeLeft wide_round - (1000 - lastUpdateTime wide_round) / 1000
   \<and> map (explodes 0) (circles wide_round) = [False]
   \<and> map radius (circles wide_round) = [15]
   \<and> map (\<lambda>c. bounce 400 400 c = c) (circles wide_round) = [True]
   \<and> timeLeft (update 1000 400 400 wide_round) = timeLeft wide_round
   \<and> circles (update 1000 400 400 wide_round) = circles wide_round"
  using frame_applies_dt [where st = wide_round and timestamp = 1000 and w = 400 and h = 400]
  by (simp add: wide_round_def explodes_def example_defs op_defs)

text \<open>
  The claim as stated fails for a negative delta-time: in \<open>backward_run\<close> the frame's
  timestamp is 4 ms before the clock reference, the timer rises from 30 to 30.004 and
  the radius of the circle falls from 15 to 14.92.
\<close>

theorem backward_frame_counterexample:
  "timeLeft (run (butlast backward_run) initial) = 30
   \<and> map radius (circles (run (butlast backward_run) initial)) = [15]
   \<and> timeLeft (run backward_run initial) = 30.004
   \<and> map radius (circles (run backward_run initial)) = [14.92]"
  by (simp add: backward_run_def example_defs op_defs)

subsection \<open>C8: the time-warp window\<close>

text \<open>
  Claim C8. At level 6 or above, in a frame that is applied: when the warp is off and the
  elapsed time of the round has reached \<open>nextWarpAt\<close>, the warp turns on, its end is set to
  \<open>nextWarpAt + 3\<close> and the effective spawn interval becomes the base interval times 0.5;
  while the warp is on and the elapsed time is below that end, nothing changes; once the
  elapsed time has reached the end, the warp turns off, the effective interval is the base
  interval again, and \<open>nextWarpAt\<close> is its previous value plus 8, whatever the elapsed
  time is.
\<close>

theorem time_warp_window:
  fixes timestamp w h :: real and st :: game
  defines "dt \<equiv> (timestamp - lastUpdateTime st) / 1000"
  defines "elapsed \<equiv> 30 - (timeLeft st - dt)"
  defines "st' \<equiv> update timestamp w h st"
  assumes "gameRunning st" and "\<not> paused st" and "0 < timeLeft st - dt"
    and "6 \<le> currentLevel st"
  shows "(\<not> warpActive st \<and> nextWarpAt st \<le> elapsed \<longrightarrow>
            warpActive st' \<and> warpEndAt st' = nextWarpAt st + 3
            \<and> spawnInterval st' = baseSpawnInterval st * 0.5
            \<and> nextWarpAt st' = nextWarpAt st \<and> baseSpawnInterval st' = baseSpawnInterval st)
       \<and> (warpActive st \<and> elapsed < warpEndAt st \<longrightarrow>
            warpActive st' \<and> warpEndAt st' = warpEndAt st
            \<and> spawnInterval st' = spawnInterval st \<and> nextWarpAt st' = nextWarpAt st)
       \<and> (warpActive st \<and> warpEndAt st \<le> elapsed \<longrightarrow>
            \<not> warpActive st' \<and> spawnInterval st' = baseSpawnInterval st
            \<and> nextWarpAt st' = nextWarpAt st + 8)"
  using assms(4-7) unfolding st'_def elapsed_def dt_def
  by (simp add: update_warp timeWarp_def timeWarp_duration_def timeWarp_factor_def
      timeWarp_interval_def)

text \<open>
  The theorem at a level-6 round: a frame at 8 s opens the window until 11 s with the
  interval 1180.98 halved; a frame at 9 s leaves it open; a frame at 11.5 s closes it and
  moves \<open>nextWarpAt\<close> to 16.
\<close>

theorem time_warp_window_witness:
  "6 \<le> currentLevel warp_round \<and> nextWarpAt warp_round = 8
   \<and> baseSpawnInterval warp_round = 1180.98
   \<and> warpActive (update 8000 400 400 warp_round)
   \<and> warpEndAt (update 8000 400 400 warp_round) = 11
   \<and> spawnInterval (update 8000 400 400 warp_round) = 590.49
   \<and> warpActive (update 9000 400 400 (update 8000 400 400 warp_round))
   \<and> \<not> warpActive (update 11500 400 400 (update 8000 400 400 warp_round))
   \<and> spawnInterval (update 11500 400 400 (update 8000 400 400 warp_round)) = 1180.98
   \<and> nextWarpAt (update 11500 400 400 (update 8000 400 400 warp_round)) = 16"
  using time_warp_window [where st = warp_round and timestamp = 8000 and w = 400 and h = 400]
    time_warp_window [where st = "update 8000 400 400 warp_round" and timestamp = 9000
      and w = 400 and h = 400]
    time_warp_window [where st = "update 8000 400 400 warp_round" and timestamp = 11500
      and w = 400 and h = 400]
  by (simp add: warp_round_def example_defs op_defs)

subsection \<open>C7: the pause button pressed twice\<close>

text \<open>
  Claim C7, as amended. The pause control is a toggle. From a running state, one command
  sets the paused flag and cancels the spawn timeout and the frame callback; a second
  command in a row resumes: the state is the running state it started from, with the
  clock reference set to the time of the second command, the spawn timeout set again with
  the current interval and a frame requested. Circles, round timer, score, level, spawn
  intervals and warp state are the same before, between and after the two commands.
\<close>

theorem pause_toggle_twice:
  assumes "gameRunning st" and "\<not> paused st"
  shows "resumeBtnClick t1 st =
           st\<lparr>paused := True, spawnTimeoutId := None, animationFrameId := False\<rparr>
       \<and> resumeBtnClick t2 (resumeBtnClick t1 st) =
           st\<lparr>lastUpdateTime := t2, spawnTimeoutId := Some (spawnInterval st),
              animationFrameId := True\<rparr>"
  using assms by (cases st) (simp add: resumeBtnClick_def spawnNext_def Let_def)

text \<open>The theorem at a level-1 round with one circle, paused at 2000 ms, resumed at 3000 ms.\<close>

theorem pause_toggle_twice_witness:
  "gameRunning wide_round \<and> \<not> paused wide_round
   \<and> paused (resumeBtnClick 2000 wide_round)
   \<and> circles (resumeBtnClick 3000 (resumeBtnClick 2000 wide_round)) = circles wide_round
   \<and> lastUpdateTime (resumeBtnClick 3000 (resumeBtnClick 2000 wide_round)) = 3000"
  using pause_toggle_twice [where st = wide_round and ?t1.0 = 2000 and ?t2.0 = 3000]
  by (simp add: wide_round_def resumeBtnClick_def example_defs op_defs)

text \<open>
  The claim as stated fails: after the second command the game is not paused and a spawn
  is scheduled again, unlike after the first.
\<close>

theorem pause_twice_counterexample:
  "paused (resumeBtnClick 2000 wide_round)
   \<and> \<not> paused (resumeBtnClick 3000 (resumeBtnClick 2000 wide_round))
   \<and> spawnTimeoutId (resumeBtnClick 2000 wide_round) = None
   \<and> spawnTimeoutId (resumeBtnClick 3000 (resumeBtnClick 2000 wide_round)) = Some 1800"
  by (simp add: wide_round_def resumeBtnClick_def example_defs op_defs)

subsection \<open>C2: the spawn interval and its minimum\<close>

text \<open>
  Claim C2, as amended. After every spawn event, from any state, the base spawn interval
  is at least the minimum of 300 ms, and the next spawn is scheduled with the effective
  interval: the base interval when no time warp is active, hence at least 300 ms, and the
  base interval times 0.5 while a time warp is active, hence at least 150 ms.
\<close>

theorem spawn_interval_bounds:
  fixes r :: spawn_rolls and w h :: real and st :: game
  defines "st' \<equiv> spawnTimeout r w h st"
  shows "MIN_SPAWN_INTERVAL \<le> baseSpawnInterval st'
       \<and> spawnTimeoutId st' = Some (spawnInterval st')
       \<and> (\<not> warpActive st \<longrightarrow> spawnInterval st' = baseSpawnInterval st'
                               \<and> 300 \<le> spawnInterval st')
       \<and> (warpActive st \<longrightarrow> spawnInterval st' = baseSpawnInterval st' * 0.5
                             \<and> 150 \<le> spawnInterval st')"
  unfolding st'_def
  by (simp add: spawnTimeout_def spawnCircle_def spawnNext_def Let_def
      MIN_SPAWN_INTERVAL_def timeWarp_factor_def)

text \<open>
  The theorem at a level-1 round after its first spawn, without and with an active warp.
\<close>

theorem spawn_interval_bounds_witness:
  "\<not> warpActive wide_round
   \<and> spawnInterval (spawnTimeout rollsN 400 400 wide_round) = 1620
   \<and> warpActive (wide_round\<lparr>warpActive := True\<rparr>)
   \<and> 150 \<le> spawnInterval (spawnTimeout rollsN 400 400 (wide_round\<lparr>warpActive := True\<rparr>))"
  using spawn_interval_bounds [where st = wide_round and r = rollsN and w = 400 and h = 400]
    spawn_interval_bounds [where st = "wide_round\<lparr>warpActive := True\<rparr>" and r = rollsN
      and w = 400 and h = 400]
  by (simp add: wide_round_def example_defs op_defs)

text \<open>
  The claim as stated fails during a time warp: at the end of \<open>warp_run\<close> the base
  interval is \<open>2000 * 0.9 ^ 16\<close>, about 370.6 ms, and the next spawn is scheduled with half
  of it, about 185.3 ms.
\<close>

theorem warp_interval_counterexample:
  "warpActive (run warp_run initial)
   \<and> baseSpawnInterval (run warp_run initial) = 2000 * 0.9 ^ 16
   \<and> spawnInterval (run warp_run initial) = 1000 * 0.9 ^ 16
   \<and> spawnTimeoutId (run warp_run initial) = Some (spawnInterval (run warp_run initial))
   \<and> spawnInterval (run warp_run initial) < 300"
  by (simp add: warp_run_def example_defs op_defs)

subsection \<open>C4: the children of a splitter\<close>



subsection \<open>C6: the type of a spawned circle\<close>

text \<open>
  Claim C6. A spawn appends one circle of radius 15 and growth 20 whose type follows the
  checks in their order: a fuse if the level is 5 or more and the fuse roll is below 0.25;
  else a splitter if the level is 4 or more and the splitter roll is below 0.3; else a
  circle that is armored (two clicks) exactly if the level is 2 or more and the armored
  roll is below 0.2, and drifts at speed 40 in the direction of the angle roll exactly if
  the level is 3 or more and the drifter roll is below 0.5. Fuses and splitters take
  one click and do not drift.
\<close>

theorem spawn_type_selection:
  fixes r :: spawn_rolls and w h :: real and st :: game
  defines "level \<equiv> currentLevel st"
  defines "isFuse \<equiv> 5 \<le> level \<and> fuseRoll r < 0.25"
  defines "isSplitter \<equiv> \<not> isFuse \<and> 4 \<le> level \<and> splitterRoll r < 0.3"
  defines "isArmored \<equiv> \<not> isFuse \<and> \<not> isSplitter \<and> 2 \<le> level \<and> armoredRoll r < 0.2"
  defines "isDrifter \<equiv> \<not> isFuse \<and> \<not> isSplitter \<and> 3 \<le> level \<and> drifterRoll r < 0.5"
  shows "\<exists>c. circles (spawnCircle r w h st) = circles st @ [c]
     \<and> type c = (if isFuse then Fuse else if isSplitter then Splitter
                  else if isDrifter then Drifter else if isArmored then Armored else Normal)
     \<and> clicks c = (if isArmored then 2 else 1)
     \<and> driftX c = (if isDrifter then cos (angleRoll r * pi * 2) * 40 else 0)
     \<and> driftY c = (if isDrifter then sin (angleRoll r * pi * 2) * 40 else 0)
     \<and> (driftX c)\<^sup>2 + (driftY c)\<^sup>2 = (if isDrifter then 40\<^sup>2 else 0)
     \<and> fuseTimeLeft c = (if isFuse then Some 3.5 else None)
     \<and> radius c = 15 \<and> growth c = 20"
proof -
  have sq: "(cos x * 40)\<^sup>2 + (sin x * 40)\<^sup>2 = 40\<^sup>2" for x :: real
    by (rule drift_speed)
  show ?thesis
    unfolding isDrifter_def isArmored_def isSplitter_def isFuse_def level_def
    using sq by (simp add: spawnCircle_def armoredMod_def drifterMod_def Let_def)
qed

text \<open>
  The theorem at levels 5, 4 and 3: a fuse; with the same rolls at level 4 the fuse check
  is not made and the circle is plain; a splitter; at level 5 a circle that is both
  armored and drifting; at level 1 the same rolls give a plain circle.
\<close>

theorem spawn_type_selection_witness:
  "map type (circles (spawnCircle rollsF 400 400 (run [DebugBtn 5 0] initial))) = [Fuse]
   \<and> map fuseTimeLeft (circles (spawnCircle rollsF 400 400 (run [DebugBtn 5 0] initial)))
       = [Some 3.5]
   \<and> map type (circles (spawnCircle rollsF 400 400 (run [DebugBtn 4 0] initial))) = [Normal]
   \<and> map type (circles (spawnCircle rollsS 400 400 (run [DebugBtn 4 0] initial))) = [Splitter]
   \<and> map type (circles (spawnCircle rollsAD 400 400 (run [DebugBtn 5 0] initial))) = [Drifter]
   \<and> map clicks (circles (spawnCircle rollsAD 400 400 (run [DebugBtn 5 0] initial))) = [2]
   \<and> map driftX (circles (spawnCircle rollsAD 400 400 (run [DebugBtn 5 0] initial))) = [40]
   \<and> map type (circles (spawnCircle rollsAD 400 400 (run [StartBtn 0] initial))) = [Normal]
   \<and> map clicks (circles (spawnCircle rollsAD 400 400 (run [StartBtn 0] initial))) = [1]"
  using spawn_type_selection [where st = "run [DebugBtn 5 0] initial" and r = rollsF
      and w = 400 and h = 400]
    spawn_type_selection [where st = "run [DebugBtn 4 0] initial" and r = rollsF
      and w = 400 and h = 400]
    spawn_type_selection [where st = "run [DebugBtn 4 0] initial" and r = rollsS
      and w = 400 and h = 400]
    spawn_type_selection [where st = "run [DebugBtn 5 0] initial" and r = rollsAD
      and w = 400 and h = 400]
    spawn_type_selection [where st = "run [StartBtn 0] initial" and r = rollsAD
      and w = 400 and h = 400]
  by (simp add: example_defs op_defs)

subsection \<open>C10: the radius floor\<close>

text \<open>
  Claim C10, as amended. In every run of the game from its initial state in which no
  frame carries a timestamp before the clock reference (so every delta-time is zero or
  more), every live circle has a radius of at least 5 after every event: circles spawn
  with radius 15, children of a splitter with radius 10 or more, growth over a delta-time
  of zero or more does not lower a radius, and both shockwaves stop at 5.
\<close>

theorem radius_floor:
  assumes "forward es initial"
  shows "\<forall>c\<in>set (circles (run es initial)). 5 \<le> radius c"
proof -
  have "sound_game initial"
    by (simp add: sound_game_def initial_def)
  then have "sound_game (run es initial)"
    using assms by (rule sound_run)
  then show ?thesis
    by (simp add: sound_game_def sound_def)
qed

text \<open>
  The theorem at \<open>shrink_run\<close> followed by a frame 4 ms after the clock reference: the
  plain circle, shrunk to 5 by the shockwaves, has radius 5.08.
\<close>

theorem radius_floor_witness:
  "forward (shrink_run @ [Frame 3004 400 400]) initial
   \<and> map radius (circles (run shrink_run initial)) = [5]
   \<and> map radius (circles (run (shrink_run @ [Frame 3004 400 400]) initial)) = [5.08]"
  using radius_floor [of "shrink_run @ [Frame 3004 400 400]"]
  by (simp add: shrink_run_def click_defs example_defs op_defs)

text \<open>
  The claim as stated fails when a frame carries a timestamp before the clock reference:
  \<open>shrink_run\<close> ends with the plain circle at radius 5 and the clock reference at
  3000 ms, and a frame with timestamp 2996 ms takes the radius to 4.92.
\<close>

theorem negative_frame_counterexample:
  "map radius (circles (run shrink_run initial)) = [5]
   \<and> lastUpdateTime (run shrink_run initial) = 3000
   \<and> map radius (circles (run (shrink_run @ [Frame 2996 400 400]) initial)) = [4.92]"
  by (simp add: shrink_run_def click_defs example_defs op_defs)

end
